theory Spec2Isabelle
  imports Main "HOL-Library.Word"
begin

unbundle bit_operations_syntax

section \<open>Data model of repo-watcher (main.go)\<close>

text \<open>
  The program keeps its state in package-level variables: the loaded configuration, the
  compiled pattern, the map \<open>currentlyWatching\<close> and two fsnotify watchers. The model
  threads them through every function as one record. What the program does to the outside
  (log lines, subprocesses) is appended to traces in the same record, so that a theorem can
  speak about it.
\<close>

record watcherConfig =
  ReposRoot :: string
  WatchPath :: string
  WatchRegexp :: string
  Execute :: string

datatype logType = logInfo | logError

text \<open>
  A run-time panic of Go ends the process. The three kinds that main.go can raise: a method
  call through a nil pointer or nil interface, a slice expression beyond the capacity
  (\<open>[:high]\<close> with capacity \<open>cap\<close>), and the explicit \<open>panic(message)\<close>.
\<close>

datatype go_panic =
    NilDereference
  | SliceBoundsOutOfRange nat nat
  | PanicValue string

text \<open>
  \<open>os.Stat\<close> returns either a \<open>FileInfo\<close> and a nil error, or a nil \<open>FileInfo\<close> and an
  error. \<open>os.IsNotExist\<close> recognises one kind of error only.
\<close>

datatype os_error = ErrNotExist | ErrPermission | ErrOther string

record FileInfo =
  IsDir :: bool

fun os_IsNotExist :: "os_error \<Rightarrow> bool" where
  "os_IsNotExist ErrNotExist = True"
| "os_IsNotExist ErrPermission = False"
| "os_IsNotExist (ErrOther m) = False"

text \<open>
  An fsnotify event: the path and the bit mask of operations. The constants are those of
  the fsnotify package (\<open>Create Op = 1 << iota\<close>, then Write, Remove, Rename, Chmod).
\<close>

record Event =
  Name :: string
  Op :: "32 word"

definition Create :: "32 word" where "Create = 1"
definition Write :: "32 word" where "Write = 2"
definition Remove :: "32 word" where "Remove = 4"
definition Rename :: "32 word" where "Rename = 8"
definition Chmod :: "32 word" where "Chmod = 16"

text \<open>
  Everything the program asks of its surroundings, as it answers at the moment of one call:
  the file system (\<open>os.Stat\<close>, \<open>ioutil.ReadDir\<close> giving the entry names, nothing on an
  error, which watchRepos ignores), the subprocess (\<open>cmd.Output\<close> of \<open>sh -c command\<close> in a
  directory: the error text, or the standard output), the outcome of \<open>Add\<close> on each
  watcher (the error text, or None), and the capacity the Go runtime picks when \<open>append\<close>
  has to grow a full slice of a given capacity.
\<close>

record world =
  os_Stat :: "string \<Rightarrow> os_error + FileInfo"
  ioutil_ReadDir :: "string \<Rightarrow> string list"
  cmd_Output :: "string \<Rightarrow> string \<Rightarrow> string + string"
  reposWatcher_Add :: "string \<Rightarrow> string option"
  watcher_Add :: "string \<Rightarrow> string option"
  runtime_growcap :: "nat \<Rightarrow> nat"

text \<open>
  The package-level variables. A watcher is None while the pointer is nil, and otherwise the
  set of paths it is subscribed to. \<open>watcherRegexp\<close> is None while the pointer is nil, and
  otherwise the compiled pattern as the predicate \<open>Match\<close> computes. \<open>logged\<close> holds the
  lines that \<open>log\<close> wrote, \<open>executed\<close> the calls of \<open>cmd.Output\<close> (argument vector and working
  directory of the command), both in order.
\<close>

record state =
  config :: watcherConfig
  reposWatcher :: "string set option"
  watcher :: "string set option"
  watcherRegexp :: "(string \<Rightarrow> bool) option"
  currentlyWatching :: "string \<rightharpoonup> bool"
  logged :: "(logType \<times> string) list"
  executed :: "(string list \<times> string) list"

text \<open>
  \<open>log\<close> prints the line and appends it to the file of its kind; a failure to open or
  write that file is dropped by the code, so the line printed is the whole effect.
\<close>

definition log :: "logType \<Rightarrow> string \<Rightarrow> state \<Rightarrow> state" where
  "log kind message s = s\<lparr>logged := logged s @ [(kind, message)]\<rparr>"

section \<open>Strings, paths and slices\<close>

text \<open>
  \<open>string(os.PathSeparator)\<close> is the one-byte string of the slash on the systems that have
  \<open>sh\<close>. \<open>strings.Split\<close> is modelled for such a one-byte separator: the pieces between
  the occurrences, empty pieces included, and the whole string when there is none.
\<close>

definition separator :: char where
  "separator = CHR ''/''"

fun strings_Split :: "string \<Rightarrow> char \<Rightarrow> string list" where
  "strings_Split [] sep = [[]]"
| "strings_Split (c # cs) sep =
     (if c = sep then [] # strings_Split cs sep
      else (case strings_Split cs sep of
              [] \<Rightarrow> [[c]]
            | p # ps \<Rightarrow> (c # p) # ps))"

fun strings_Join :: "string list \<Rightarrow> string \<Rightarrow> string" where
  "strings_Join [] sep = []"
| "strings_Join [x] sep = x"
| "strings_Join (x # y # ys) sep = x @ sep @ strings_Join (y # ys) sep"

text \<open>
  \<open>filepath.Split\<close> cuts right after the last separator: the directory keeps its trailing
  separator, the file has none; without a separator the directory is empty.
\<close>

definition filepath_Split :: "string \<Rightarrow> string \<times> string" where
  "filepath_Split path =
     (let file = rev (takeWhile (\<lambda>c. c \<noteq> separator) (rev path))
      in (take (length path - length file) path, file))"

text \<open>
  \<open>filepath.Clean\<close>, after its documentation: runs of separators become one, \<open>.\<close> elements
  go, an inner \<open>..\<close> goes with the element before it, a \<open>..\<close> at the start of a rooted
  path goes, the result ends in a separator only when it is the root, and the empty result
  is \<open>.\<close>. The elements are kept on a stack, last one first.
\<close>

fun clean_elements :: "bool \<Rightarrow> string list \<Rightarrow> string list \<Rightarrow> string list" where
  "clean_elements rooted acc [] = rev acc"
| "clean_elements rooted acc (x # xs) =
     (if x = [] \<or> x = ''.'' then clean_elements rooted acc xs
      else if x = ''..'' then
        (case acc of
           [] \<Rightarrow> if rooted then clean_elements rooted [] xs
                 else clean_elements rooted [''..''] xs
         | a # as \<Rightarrow> if a = ''..'' then clean_elements rooted (''..'' # acc) xs
                     else clean_elements rooted as xs)
      else clean_elements rooted (x # acc) xs)"

definition filepath_Clean :: "string \<Rightarrow> string" where
  "filepath_Clean path =
     (let rooted = (case path of [] \<Rightarrow> False | c # cs \<Rightarrow> c = separator);
          out = (if rooted then [separator] else [])
                @ strings_Join (clean_elements rooted [] (strings_Split path separator)) [separator]
      in if out = [] then ''.'' else out)"

text \<open>
  A Go slice is a window of length \<open>slice_len\<close> on a backing array; the capacity is the
  length of the array. \<open>append\<close> writes into the array while there is room, and otherwise
  moves the elements to a fresh, zeroed array of the capacity the runtime picks (at least
  one more than the length). \<open>s[:high]\<close> is checked against the capacity, not the length:
  beyond the capacity it panics, up to the capacity it shows what the array holds.
\<close>

record 'a slice =
  slice_array :: "'a list"
  slice_len :: nat

definition slice_cap :: "'a slice \<Rightarrow> nat" where
  "slice_cap s = length (slice_array s)"

definition slice_elems :: "'a slice \<Rightarrow> 'a list" where
  "slice_elems s = take (slice_len s) (slice_array s)"

definition empty_slice :: "'a slice" where
  "empty_slice = \<lparr>slice_array = [], slice_len = 0\<rparr>"

definition append_go :: "(nat \<Rightarrow> nat) \<Rightarrow> 'a \<Rightarrow> 'a slice \<Rightarrow> 'a \<Rightarrow> 'a slice" where
  "append_go growcap zero s x =
     (if slice_len s < slice_cap s
      then \<lparr>slice_array = (slice_array s)[slice_len s := x], slice_len = slice_len s + 1\<rparr>
      else (let newcap = max (slice_len s + 1) (growcap (slice_cap s))
            in \<lparr>slice_array = slice_elems s @ [x] @ replicate (newcap - (slice_len s + 1)) zero,
                slice_len = slice_len s + 1\<rparr>))"

definition slice_to :: "'a slice \<Rightarrow> nat \<Rightarrow> go_panic + 'a slice" where
  "slice_to s high =
     (if slice_cap s < high then Inl (SliceBoundsOutOfRange high (slice_cap s))
      else Inr (s\<lparr>slice_len := high\<rparr>))"

text \<open>filterEmptyParts: the loop over the elements, appending the non-empty ones.\<close>

fun filterEmptyParts_loop :: "(nat \<Rightarrow> nat) \<Rightarrow> string slice \<Rightarrow> string list \<Rightarrow> string slice" where
  "filterEmptyParts_loop growcap result [] = result"
| "filterEmptyParts_loop growcap result (element # elements) =
     (if length element > 0
      then filterEmptyParts_loop growcap (append_go growcap [] result element) elements
      else filterEmptyParts_loop growcap result elements)"

definition filterEmptyParts :: "(nat \<Rightarrow> nat) \<Rightarrow> string list \<Rightarrow> string slice" where
  "filterEmptyParts growcap elements = filterEmptyParts_loop growcap empty_slice elements"

section \<open>The repository set: addRepo and removeRepo\<close>

text \<open>
  Both functions change the map and the inner watcher between \<open>reposMutex.Lock()\<close> and
  \<open>Unlock()\<close>, so each call is one atomic step on the state, and the two event loops
  running side by side are modelled by the order in which their handlers are applied.
  \<open>watcher.Add\<close> subscribes the path unless it reports an error, which addRepo drops;
  \<open>watcher.Remove\<close> drops the subscription if there is one, and its error is dropped too.
  A call through a nil watcher panics.
\<close>

definition addRepo :: "world \<Rightarrow> string \<Rightarrow> state \<Rightarrow> go_panic + state" where
  "addRepo w path s =
     (let cleanPath = filepath_Clean path in
      case os_Stat w cleanPath of
        Inl err \<Rightarrow> Inr s
      | Inr info \<Rightarrow>
          if \<not> IsDir info then Inr s
          else
            (let targetPath = filepath_Clean (cleanPath @ ''/'' @ WatchPath (config s)) in
             case os_Stat w targetPath of
               Inl err \<Rightarrow> Inr s
             | Inr info \<Rightarrow>
                 if \<not> IsDir info then Inr s
                 else
                   (case currentlyWatching s cleanPath of
                      Some ok \<Rightarrow> Inr s
                    | None \<Rightarrow>
                        (let s1 = log logInfo (''[RepoWatch] Adding repo: '' @ cleanPath) s in
                         case watcher s1 of
                           None \<Rightarrow> Inl NilDereference
                         | Some paths \<Rightarrow>
                             Inr (s1\<lparr>watcher :=
                                        Some (case watcher_Add w targetPath of
                                                None \<Rightarrow> insert targetPath paths
                                              | Some err \<Rightarrow> paths),
                                      currentlyWatching :=
                                        (currentlyWatching s1)(cleanPath \<mapsto> True)\<rparr>)))))"

definition removeRepo :: "string \<Rightarrow> state \<Rightarrow> go_panic + state" where
  "removeRepo path s =
     (let cleanPath = filepath_Clean path;
          targetPath = filepath_Clean (cleanPath @ ''/'' @ WatchPath (config s)) in
      case currentlyWatching s cleanPath of
        None \<Rightarrow> Inr s
      | Some ok \<Rightarrow>
          (let s1 = log logInfo (''[RepoWatch] Removing repo: '' @ cleanPath) s in
           case watcher s1 of
             None \<Rightarrow> Inl NilDereference
           | Some paths \<Rightarrow>
               Inr (s1\<lparr>watcher := Some (paths - {targetPath}),
                        currentlyWatching := (currentlyWatching s1)(cleanPath := None)\<rparr>)))"

section \<open>The event handlers\<close>

definition processReposEvent :: "world \<Rightarrow> Event \<Rightarrow> state \<Rightarrow> go_panic + state" where
  "processReposEvent w event s =
     (if Op event AND Create = Create then addRepo w (Name event) s
      else if Op event AND Chmod = Chmod then addRepo w (Name event) s
      else if Op event AND Rename = Rename then removeRepo (Name event) s
      else if Op event AND Remove = Remove then removeRepo (Name event) s
      else Inr s)"

text \<open>
  The message of processEvent, \<open>fmt.Sprintf("[RepoWatch] Executing \"%s\" in \"%s\"", ...)\<close>;
  the character 0x22 is the double quote.
\<close>

definition execMessage :: "string \<Rightarrow> string \<Rightarrow> string" where
  "execMessage command repoPath =
     ''[RepoWatch] Executing '' @ [CHR 0x22] @ command @ [CHR 0x22]
       @ '' in '' @ [CHR 0x22] @ repoPath @ [CHR 0x22]"

text \<open>
  processEvent. In the first condition \<open>info.IsDir()\<close> is evaluated whenever
  \<open>os.IsNotExist(err)\<close> is false, also when \<open>err\<close> is another error and \<open>info\<close> is nil.
  \<open>watcherRegexp.Match\<close> goes through the pointer, which is nil when the pattern did not
  compile.
\<close>

definition processEvent :: "world \<Rightarrow> Event \<Rightarrow> state \<Rightarrow> go_panic + state" where
  "processEvent w event s =
     (case os_Stat w (Name event) of
        Inl err \<Rightarrow> if os_IsNotExist err then Inr s else Inl NilDereference
      | Inr info \<Rightarrow>
          if IsDir info then Inr s
          else
            (case filepath_Split (Name event) of
               (dir, baseName) \<Rightarrow>
                 (case watcherRegexp s of
                    None \<Rightarrow> Inl NilDereference
                  | Some re \<Rightarrow>
                      if \<not> re baseName then Inr s
                      else
                        (let reposRootParts =
                               filterEmptyParts (runtime_growcap w)
                                 (strings_Split (ReposRoot (config s)) separator);
                             dirPathParts =
                               filterEmptyParts (runtime_growcap w) (strings_Split dir separator) in
                         case slice_to dirPathParts (slice_len reposRootParts + 1) of
                           Inl p \<Rightarrow> Inl p
                         | Inr parts \<Rightarrow>
                             (let repoPath = strings_Join (slice_elems parts) [separator];
                                  s1 = log logInfo (execMessage (Execute (config s)) repoPath) s;
                                  s2 = s1\<lparr>executed := executed s1 @
                                            [([''sh'', ''-c'', Execute (config s)], repoPath)]\<rparr> in
                              case cmd_Output w (Execute (config s)) repoPath of
                                Inl err \<Rightarrow> Inr (log logError err s2)
                              | Inr output \<Rightarrow> Inr (log logInfo output s2))))))"

text \<open>
  The two loops receive events for as long as the process lives. A finite run of a loop
  is the list of events delivered so far, each with the surroundings as they were when it
  was handled; a panic in a handler ends the process and the run.
\<close>

fun reposLoop :: "(world \<times> Event) list \<Rightarrow> state \<Rightarrow> go_panic + state" where
  "reposLoop [] s = Inr s"
| "reposLoop ((w, event) # rest) s =
     (case processReposEvent w event s of
        Inl p \<Rightarrow> Inl p
      | Inr s' \<Rightarrow> reposLoop rest s')"

fun fileLoop :: "(world \<times> Event) list \<Rightarrow> state \<Rightarrow> go_panic + state" where
  "fileLoop [] s = Inr s"
| "fileLoop ((w, event) # rest) s =
     (case processEvent w event s of
        Inl p \<Rightarrow> Inl p
      | Inr s' \<Rightarrow> fileLoop rest s')"

section \<open>Startup: main, checkError and watchRepos\<close>

definition checkError :: "string option \<Rightarrow> state \<Rightarrow> state" where
  "checkError e s = (case e of None \<Rightarrow> s | Some message \<Rightarrow> log logError message s)"

text \<open>
  How a call of watchRepos ends when it does not panic: it returns (the root watch could not
  be registered), or it stays in \<open><-done\<close> with both loops running.
\<close>

datatype run_status = Returned | Watching

fun addRepos :: "world \<Rightarrow> string list \<Rightarrow> state \<Rightarrow> go_panic + state" where
  "addRepos w [] s = Inr s"
| "addRepos w (path # paths) s =
     (case addRepo w path s of
        Inl p \<Rightarrow> Inl p
      | Inr s' \<Rightarrow> addRepos w paths s')"

text \<open>
  watchRepos. Each loop reads the \<open>Events\<close> field of its watcher as soon as it starts, so a
  nil watcher panics there.
\<close>

definition watchRepos :: "world \<Rightarrow> string \<Rightarrow> state \<Rightarrow> go_panic + run_status \<times> state" where
  "watchRepos w reposRoot s =
     (case os_Stat w reposRoot of
        Inl err \<Rightarrow>
          if os_IsNotExist err
          then Inl (PanicValue (''repos root does not exists: '' @ reposRoot))
          else Inl NilDereference
      | Inr info \<Rightarrow>
          if \<not> IsDir info
          then Inl (PanicValue (''specified repos root is not a directory: '' @ reposRoot))
          else
            (case reposWatcher s of
               None \<Rightarrow> Inl NilDereference
             | Some rootPaths \<Rightarrow>
                 (case reposWatcher_Add w reposRoot of
                    Some err \<Rightarrow> Inr (Returned, log logError err s)
                  | None \<Rightarrow>
                      (let s1 = s\<lparr>reposWatcher := Some (insert reposRoot rootPaths)\<rparr> in
                       case watcher s1 of
                         None \<Rightarrow> Inl NilDereference
                       | Some paths \<Rightarrow>
                           (case addRepos w
                                   (map (\<lambda>file. reposRoot @ ''/'' @ file) (ioutil_ReadDir w reposRoot))
                                   s1 of
                              Inl p \<Rightarrow> Inl p
                            | Inr s2 \<Rightarrow> Inr (Watching, s2))))))"

text \<open>
  What main gets from the libraries before it calls watchRepos: the error of each
  \<open>fsnotify.NewWatcher\<close> (None when the watcher was created), the content of config.json
  or the error of reading it, what \<open>json.Unmarshal\<close> makes of a content (its error, and the
  configuration as the call leaves it), and \<open>regexp.Compile\<close> (the error, or the pattern).
\<close>

record startup =
  NewWatcher_repos :: "string option"
  NewWatcher_inner :: "string option"
  ReadFile_config :: "string + string"
  json_Unmarshal :: "string \<Rightarrow> string option \<times> watcherConfig"
  regexp_Compile :: "string \<Rightarrow> string + (string \<Rightarrow> bool)"

text \<open>The package-level variables before main runs: zero values, nil pointers.\<close>

definition initial_state :: state where
  "initial_state =
     \<lparr>config = \<lparr>ReposRoot = [], WatchPath = [], WatchRegexp = [], Execute = []\<rparr>,
      reposWatcher = None, watcher = None, watcherRegexp = None,
      currentlyWatching = Map.empty, logged = [], executed = []\<rparr>"

text \<open>
  The state of main when it reaches the call of watchRepos. Every error on the way goes
  to checkError, and main goes on with what the failed call left.
\<close>

definition main_setup :: "startup \<Rightarrow> state" where
  "main_setup st =
     (let s0 = log logInfo ''Starting repos watcher...'' initial_state;
          s1 = checkError (NewWatcher_repos st)
                 (s0\<lparr>reposWatcher := (case NewWatcher_repos st of None \<Rightarrow> Some {} | Some e \<Rightarrow> None)\<rparr>);
          s2 = checkError (NewWatcher_inner st)
                 (s1\<lparr>watcher := (case NewWatcher_inner st of None \<Rightarrow> Some {} | Some e \<Rightarrow> None)\<rparr>);
          s3 = s2\<lparr>currentlyWatching := Map.empty\<rparr>;
          configData = (case ReadFile_config st of Inl e \<Rightarrow> [] | Inr d \<Rightarrow> d);
          s4 = checkError (case ReadFile_config st of Inl e \<Rightarrow> Some e | Inr d \<Rightarrow> None) s3;
          s5 = checkError (fst (json_Unmarshal st configData))
                 (s4\<lparr>config := snd (json_Unmarshal st configData)\<rparr>);
          compiled = regexp_Compile st (WatchRegexp (config s5))
      in checkError (case compiled of Inl e \<Rightarrow> Some e | Inr re \<Rightarrow> None)
           (s5\<lparr>watcherRegexp := (case compiled of Inl e \<Rightarrow> None | Inr re \<Rightarrow> Some re)\<rparr>))"

text \<open>
  main: the setup, watchRepos, and on its return the deferred \<open>watcher.Close()\<close> and
  \<open>reposWatcher.Close()\<close>, each through its pointer.
\<close>

definition main :: "startup \<Rightarrow> world \<Rightarrow> go_panic + run_status \<times> state" where
  "main st w =
     (let s = main_setup st in
      case watchRepos w (ReposRoot (config s)) s of
        Inl p \<Rightarrow> Inl p
      | Inr (Watching, s') \<Rightarrow> Inr (Watching, s')
      | Inr (Returned, s') \<Rightarrow>
          (case watcher s' of
             None \<Rightarrow> Inl NilDereference
           | Some paths \<Rightarrow>
               (case reposWatcher s' of
                  None \<Rightarrow> Inl NilDereference
                | Some rootPaths \<Rightarrow>
                    Inr (Returned, s'\<lparr>watcher := Some {}, reposWatcher := Some {}\<rparr>))))"

section \<open>Notions used in the statements\<close>

text \<open>
  A slice as filterEmptyParts builds it: the window lies inside the array, and the array
  holds the zero value, the empty string, beyond the window.
\<close>

definition slice_ok :: "string slice \<Rightarrow> bool" where
  "slice_ok s = (slice_len s \<le> slice_cap s \<and>
     drop (slice_len s) (slice_array s) = replicate (slice_cap s - slice_len s) [])"

text \<open>The non-empty segments of a path, and the first segments of an event's directory,
  one more than the root has, joined again: the path that processEvent hands to the
  command when the directory has that many segments.\<close>

definition segments :: "string \<Rightarrow> string list" where
  "segments path = filter (\<lambda>x. x \<noteq> []) (strings_Split path separator)"

definition repoPath_of :: "state \<Rightarrow> Event \<Rightarrow> string" where
  "repoPath_of s event =
     strings_Join
       (take (length (segments (ReposRoot (config s))) + 1)
          (segments (fst (filepath_Split (Name event)))))
       [separator]"

text \<open>The two checks of addRepo: \<open>os.Stat\<close> succeeds and reports a directory, for the
  cleaned path and for the watch subpath below it.\<close>

definition is_directory :: "world \<Rightarrow> string \<Rightarrow> bool" where
  "is_directory w path = (case os_Stat w path of Inl err \<Rightarrow> False | Inr info \<Rightarrow> IsDir info)"

definition targetPath_of :: "state \<Rightarrow> string \<Rightarrow> string" where
  "targetPath_of s path = filepath_Clean (filepath_Clean path @ ''/'' @ WatchPath (config s))"

definition qualifies :: "world \<Rightarrow> state \<Rightarrow> string \<Rightarrow> bool" where
  "qualifies w s path =
     (is_directory w (filepath_Clean path) \<and> is_directory w (targetPath_of s path))"

section \<open>Example inputs\<close>

text \<open>
  A repos root \<open>/data/repos\<close> with one repository \<open>alpha\<close>, its watch subpath \<open>src\<close> and a
  file \<open>main.txt\<close> in it; a directory \<open>/data/repos/locked\<close> that may not be searched; a
  file \<open>/main.txt\<close> outside the root. The pattern accepts the names that end in \<open>.txt\<close>.
  The growth of \<open>append\<close> and the outcome of the command are left open.
\<close>

definition example_config :: watcherConfig where
  "example_config =
     \<lparr>ReposRoot = ''/data/repos'', WatchPath = ''src'', WatchRegexp = ''[.]txt$'',
      Execute = ''make''\<rparr>"

definition example_pattern :: "string \<Rightarrow> bool" where
  "example_pattern baseName = (drop (length baseName - 4) baseName = ''.txt'')"

definition example_Stat :: "string \<Rightarrow> os_error + FileInfo" where
  "example_Stat path =
     (if path = ''/'' \<or> path = ''/data'' \<or> path = ''/data/repos'' \<or> path = ''/data/repos/alpha''
         \<or> path = ''/data/repos/alpha/src'' \<or> path = ''/data/repos/locked''
      then Inr \<lparr>IsDir = True\<rparr>
      else if path = ''/data/repos/alpha/src/main.txt'' \<or> path = ''/data/repos/alpha/src/notes.md''
         \<or> path = ''/main.txt''
      then Inr \<lparr>IsDir = False\<rparr>
      else if path = ''/data/repos/locked/src'' \<or> path = ''/data/repos/locked/src/main.txt''
      then Inl ErrPermission
      else Inl ErrNotExist)"

definition example_world :: "(nat \<Rightarrow> nat) \<Rightarrow> string + string \<Rightarrow> world" where
  "example_world growcap outcome =
     \<lparr>os_Stat = example_Stat,
      ioutil_ReadDir = (\<lambda>path. if path = ''/data/repos'' then [''alpha'', ''locked''] else []),
      cmd_Output = (\<lambda>command dir. outcome),
      reposWatcher_Add = (\<lambda>path. None),
      watcher_Add = (\<lambda>path. None),
      runtime_growcap = growcap\<rparr>"

text \<open>The growth of small slices in the Go runtime: capacity one, then doubling.\<close>

definition double_growcap :: "nat \<Rightarrow> nat" where
  "double_growcap c = (if c = 0 then 1 else 2 * c)"

definition example_state :: state where
  "example_state =
     \<lparr>config = example_config,
      reposWatcher = Some {''/data/repos''},
      watcher = Some {},
      watcherRegexp = Some example_pattern,
      currentlyWatching = Map.empty,
      logged = [],
      executed = []\<rparr>"

text \<open>A start in which everything succeeds but the compilation of the pattern \<open>(\<close>.\<close>

definition invalid_pattern_startup :: startup where
  "invalid_pattern_startup =
     \<lparr>NewWatcher_repos = None,
      NewWatcher_inner = None,
      ReadFile_config = Inr ''config.json'',
      json_Unmarshal = (\<lambda>data. (None, example_config\<lparr>WatchRegexp := ''(''\<rparr>)),
      regexp_Compile = (\<lambda>expr. Inl ''error parsing regexp: missing closing )'')\<rparr>"

text \<open>The example state after \<open>/data/repos/alpha\<close> has been added.\<close>

definition example_added_state :: state where
  "example_added_state =
     example_state
       \<lparr>watcher := Some {''/data/repos/alpha/src''},
        currentlyWatching := [''/data/repos/alpha'' \<mapsto> True],
        logged := [(logInfo, ''[RepoWatch] Adding repo: /data/repos/alpha'')]\<rparr>"

text \<open>
  The same tree after \<open>/data/repos/alpha/src\<close> has been replaced by a regular file: for the
  paths that were below it \<open>os.Stat\<close> answers with the error "not a directory", which
  \<open>os.IsNotExist\<close> does not recognise.
\<close>

definition stale_world :: "(nat \<Rightarrow> nat) \<Rightarrow> string + string \<Rightarrow> world" where
  "stale_world growcap outcome =
     (example_world growcap outcome)
       \<lparr>os_Stat :=
          (\<lambda>path. if path = ''/data/repos/alpha/src'' then Inr \<lparr>IsDir = False\<rparr>
                   else if path = ''/data/repos/alpha/src/main.txt''
                        \<or> path = ''/data/repos/alpha/src/notes.md''
                   then Inl (ErrOther ''not a directory'')
                   else example_Stat path)\<rparr>"

text \<open>
  The same tree with the repos root written as \<open>/data/repos/../repos\<close> in the configuration,
  the doubling growth of \<open>append\<close>, and a start in which everything succeeds.
\<close>

definition dotdot_config :: watcherConfig where
  "dotdot_config = example_config\<lparr>ReposRoot := ''/data/repos/../repos''\<rparr>"

definition dotdot_world :: "string + string \<Rightarrow> world" where
  "dotdot_world outcome =
     (example_world double_growcap outcome)
       \<lparr>os_Stat :=
          (\<lambda>path. if path = ''/data/repos/../repos'' then Inr \<lparr>IsDir = True\<rparr>
                   else example_Stat path),
        ioutil_ReadDir :=
          (\<lambda>path. if path = ''/data/repos/../repos'' then [''alpha''] else [])\<rparr>"

definition dotdot_startup :: startup where
  "dotdot_startup =
     \<lparr>NewWatcher_repos = None,
      NewWatcher_inner = None,
      ReadFile_config = Inr ''config.json'',
      json_Unmarshal = (\<lambda>data. (None, dotdot_config)),
      regexp_Compile = (\<lambda>expr. Inr example_pattern)\<rparr>"

section \<open>Facts about slices and filterEmptyParts\<close>

lemma slice_ok_empty: "slice_ok empty_slice"
  by (simp add: slice_ok_def empty_slice_def slice_cap_def)

lemma append_go_ok:
  assumes "slice_ok s"
  shows "slice_ok (append_go g [] s x)"
proof (cases "slice_len s < slice_cap s")
  case True
  from assms have d: "drop (slice_len s) (slice_array s) = replicate (slice_cap s - slice_len s) []"
    by (simp add: slice_ok_def)
  have "drop (Suc (slice_len s)) ((slice_array s)[slice_len s := x]) = drop (Suc (slice_len s)) (slice_array s)"
    by simp
  also have "\<dots> = drop 1 (drop (slice_len s) (slice_array s))"
    by simp
  also have "\<dots> = replicate (slice_cap s - Suc (slice_len s)) []"
    using True by (simp add: d)
  finally show ?thesis
    using True by (simp add: slice_ok_def append_go_def slice_cap_def)
next
  case False
  then show ?thesis
    using assms by (simp add: slice_ok_def append_go_def slice_cap_def slice_elems_def Let_def)
qed

lemma append_go_elems:
  assumes "slice_ok s"
  shows "slice_elems (append_go g [] s x) = slice_elems s @ [x]"
proof (cases "slice_len s < slice_cap s")
  case True
  then show ?thesis
    by (simp add: append_go_def slice_elems_def slice_cap_def take_Suc_conv_app_nth)
next
  case False
  then show ?thesis
    using assms by (simp add: slice_ok_def append_go_def slice_cap_def slice_elems_def Let_def)
qed

lemma append_go_cap_pos: "0 < slice_cap (append_go g z s x)"
  by (auto simp add: append_go_def slice_cap_def Let_def)

lemma filterEmptyParts_loop_ok:
  "slice_ok r \<Longrightarrow> slice_ok (filterEmptyParts_loop g r xs)"
  by (induction xs arbitrary: r) (simp_all add: append_go_ok)

lemma filterEmptyParts_loop_elems:
  "slice_ok r \<Longrightarrow>
   slice_elems (filterEmptyParts_loop g r xs) = slice_elems r @ filter (\<lambda>x. x \<noteq> []) xs"
  by (induction xs arbitrary: r) (simp_all add: append_go_ok append_go_elems)

lemma filterEmptyParts_loop_cap:
  "filter (\<lambda>x. x \<noteq> []) xs = [] \<Longrightarrow> filterEmptyParts_loop g r xs = r"
  by (induction xs arbitrary: r) (simp_all split: if_splits)

lemma filterEmptyParts_ok: "slice_ok (filterEmptyParts g xs)"
  by (simp add: filterEmptyParts_def filterEmptyParts_loop_ok slice_ok_empty)

lemma filterEmptyParts_elems:
  "slice_elems (filterEmptyParts g xs) = filter (\<lambda>x. x \<noteq> []) xs"
  by (simp add: filterEmptyParts_def filterEmptyParts_loop_elems slice_ok_empty)
     (simp add: slice_elems_def empty_slice_def)

lemma slice_ok_len: "slice_ok s \<Longrightarrow> slice_len s = length (slice_elems s)"
  by (simp add: slice_ok_def slice_elems_def slice_cap_def)

lemma filterEmptyParts_len:
  "slice_len (filterEmptyParts g xs) = length (filter (\<lambda>x. x \<noteq> []) xs)"
  using slice_ok_len [OF filterEmptyParts_ok, of g xs] by (simp add: filterEmptyParts_elems)

lemma filterEmptyParts_no_parts:
  "filter (\<lambda>x. x \<noteq> []) xs = [] \<Longrightarrow> slice_cap (filterEmptyParts g xs) = 0"
  by (simp add: filterEmptyParts_def filterEmptyParts_loop_cap empty_slice_def slice_cap_def)

lemma slice_ok_array:
  "slice_ok s \<Longrightarrow> slice_array s = slice_elems s @ replicate (slice_cap s - slice_len s) []"
proof -
  assume a: "slice_ok s"
  have "slice_array s = take (slice_len s) (slice_array s) @ drop (slice_len s) (slice_array s)"
    by simp
  with a show ?thesis by (simp add: slice_ok_def slice_elems_def)
qed

lemma slice_to_in_len:
  assumes "slice_ok s" and "high \<le> slice_len s"
  shows "\<exists>parts. slice_to s high = Inr parts \<and> slice_elems parts = take high (slice_elems s)"
  using assms by (simp add: slice_to_def slice_ok_def slice_elems_def min_def)

lemma slice_to_beyond_cap:
  "slice_cap s < high \<Longrightarrow> slice_to s high = Inl (SliceBoundsOutOfRange high (slice_cap s))"
  by (simp add: slice_to_def)

section \<open>Facts about addRepo\<close>

lemma addRepo_not_qualifying: "\<not> qualifies w s path \<Longrightarrow> addRepo w path s = Inr s"
  by (auto simp add: addRepo_def qualifies_def is_directory_def targetPath_of_def Let_def
      split: sum.splits option.splits)

lemma addRepo_member: "currentlyWatching s (filepath_Clean path) = Some b \<Longrightarrow> addRepo w path s = Inr s"
  by (auto simp add: addRepo_def Let_def split: sum.splits option.splits)

lemma addRepo_new:
  assumes "qualifies w s path" and "currentlyWatching s (filepath_Clean path) = None"
    and "watcher s = Some paths"
  shows "addRepo w path s =
     Inr (s\<lparr>watcher := Some (case watcher_Add w (targetPath_of s path) of
                               None \<Rightarrow> insert (targetPath_of s path) paths
                             | Some err \<Rightarrow> paths),
            currentlyWatching := (currentlyWatching s)(filepath_Clean path \<mapsto> True),
            logged := logged s @ [(logInfo, ''[RepoWatch] Adding repo: '' @ filepath_Clean path)]\<rparr>)"
  using assms
  by (auto simp add: addRepo_def qualifies_def is_directory_def targetPath_of_def Let_def log_def
      split: sum.splits option.splits)

lemma addRepo_nil_watcher:
  assumes "qualifies w s path" and "currentlyWatching s (filepath_Clean path) = None"
    and "watcher s = None"
  shows "addRepo w path s = Inl NilDereference"
  using assms
  by (auto simp add: addRepo_def qualifies_def is_directory_def targetPath_of_def Let_def log_def
      split: sum.splits option.splits)

lemma addRepo_cases:
  "addRepo w path s = Inr s' \<Longrightarrow>
     s' = s \<or> (qualifies w s path \<and> currentlyWatching s (filepath_Clean path) = None \<and>
       config s' = config s \<and>
       currentlyWatching s' = (currentlyWatching s)(filepath_Clean path \<mapsto> True))"
  by (cases "qualifies w s path"; cases "currentlyWatching s (filepath_Clean path)"; cases "watcher s")
     (auto simp add: addRepo_not_qualifying addRepo_member addRepo_new addRepo_nil_watcher)

section \<open>Facts about processEvent\<close>

lemma processEvent_resolved:
  assumes "os_Stat w (Name event) = Inr info" and "\<not> IsDir info"
    and "watcherRegexp s = Some re" and "re (snd (filepath_Split (Name event)))"
    and "slice_to
           (filterEmptyParts (runtime_growcap w)
              (strings_Split (fst (filepath_Split (Name event))) separator))
           (slice_len (filterEmptyParts (runtime_growcap w)
              (strings_Split (ReposRoot (config s)) separator)) + 1) = Inr parts"
  shows "processEvent w event s =
     Inr (s\<lparr>logged := logged s @
               [(logInfo, execMessage (Execute (config s)) (strings_Join (slice_elems parts) [separator])),
                (case cmd_Output w (Execute (config s)) (strings_Join (slice_elems parts) [separator]) of
                   Inl err \<Rightarrow> (logError, err)
                 | Inr output \<Rightarrow> (logInfo, output))],
             executed := executed s @
               [([''sh'', ''-c'', Execute (config s)], strings_Join (slice_elems parts) [separator])]\<rparr>)"
  using assms
  by (cases "filepath_Split (Name event)")
     (simp add: processEvent_def Let_def log_def split: sum.splits)

lemma processEvent_out_of_range:
  assumes "os_Stat w (Name event) = Inr info" and "\<not> IsDir info"
    and "watcherRegexp s = Some re" and "re (snd (filepath_Split (Name event)))"
    and "slice_cap (filterEmptyParts (runtime_growcap w)
              (strings_Split (fst (filepath_Split (Name event))) separator))
         < length (segments (ReposRoot (config s))) + 1"
  shows "processEvent w event s =
     Inl (SliceBoundsOutOfRange (length (segments (ReposRoot (config s))) + 1)
            (slice_cap (filterEmptyParts (runtime_growcap w)
              (strings_Split (fst (filepath_Split (Name event))) separator))))"
  using assms
  by (cases "filepath_Split (Name event)")
     (simp add: processEvent_def Let_def slice_to_def filterEmptyParts_len segments_def)

lemma processEvent_inside_root:
  assumes "os_Stat w (Name event) = Inr info" and "\<not> IsDir info"
    and "watcherRegexp s = Some re" and "re (snd (filepath_Split (Name event)))"
    and "length (segments (ReposRoot (config s)))
         < length (segments (fst (filepath_Split (Name event))))"
  shows "processEvent w event s =
     Inr (s\<lparr>logged := logged s @
               [(logInfo, execMessage (Execute (config s)) (repoPath_of s event)),
                (case cmd_Output w (Execute (config s)) (repoPath_of s event) of
                   Inl err \<Rightarrow> (logError, err)
                 | Inr output \<Rightarrow> (logInfo, output))],
             executed := executed s @
               [([''sh'', ''-c'', Execute (config s)], repoPath_of s event)]\<rparr>)"
proof -
  let ?g = "runtime_growcap w"
  let ?dir = "filterEmptyParts ?g (strings_Split (fst (filepath_Split (Name event))) separator)"
  let ?high = "slice_len (filterEmptyParts ?g (strings_Split (ReposRoot (config s)) separator)) + 1"
  have high: "?high = length (segments (ReposRoot (config s))) + 1"
    by (simp add: filterEmptyParts_len segments_def)
  have "?high \<le> slice_len ?dir"
    using assms(5) by (simp add: filterEmptyParts_len segments_def)
  from slice_to_in_len [OF filterEmptyParts_ok this]
  obtain parts where p: "slice_to ?dir ?high = Inr parts"
    and e: "slice_elems parts = take ?high (slice_elems ?dir)"
    by blast
  have "strings_Join (slice_elems parts) [separator] = repoPath_of s event"
    unfolding e high by (simp add: repoPath_of_def filterEmptyParts_elems segments_def)
  with processEvent_resolved [OF assms(1-4) p] show ?thesis
    by simp
qed

section \<open>Facts about the event masks and the example inputs\<close>

lemma and_one_bit: "(x AND 2 ^ n = 2 ^ n) = bit x n" if "n < 32" for x :: "32 word"
proof
  assume "x AND 2 ^ n = 2 ^ n"
  then have "bit (x AND 2 ^ n) n = bit (2 ^ n :: 32 word) n" by simp
  then show "bit x n" using that by (simp add: bit_and_iff bit_exp_iff)
next
  assume "bit x n"
  show "x AND 2 ^ n = 2 ^ n"
  proof (rule bit_word_eqI)
    fix m
    assume "m < LENGTH(32)"
    with \<open>bit x n\<close> show "bit (x AND 2 ^ n) m = bit (2 ^ n :: 32 word) m"
      by (auto simp add: bit_and_iff bit_exp_iff)
  qed
qed

lemma bit_tests:
  "(x AND Create = Create) = bit x 0"
  "(x AND Write = Write) = bit x 1"
  "(x AND Remove = Remove) = bit x 2"
  "(x AND Rename = Rename) = bit x 3"
  "(x AND Chmod = Chmod) = bit x 4"
  for x :: "32 word"
  using and_one_bit [of 0 x] and_one_bit [of 1 x] and_one_bit [of 2 x] and_one_bit [of 3 x]
    and_one_bit [of 4 x]
  by (simp_all add: Create_def Write_def Remove_def Rename_def Chmod_def)

lemma example_split:
  "filepath_Split ''/data/repos/alpha/src/main.txt'' = (''/data/repos/alpha/src/'', ''main.txt'')"
  "filepath_Split ''/data/repos/alpha/src/notes.md'' = (''/data/repos/alpha/src/'', ''notes.md'')"
  "filepath_Split ''/data/repos/locked/src/main.txt'' = (''/data/repos/locked/src/'', ''main.txt'')"
  "filepath_Split ''/main.txt'' = (''/'', ''main.txt'')"
  by (simp_all add: filepath_Split_def separator_def)

lemma example_segments:
  "segments ''/data/repos'' = [''data'', ''repos'']"
  "segments ''/data/repos/alpha/src/'' = [''data'', ''repos'', ''alpha'', ''src'']"
  "segments ''/'' = []"
  by (simp_all add: segments_def separator_def)

lemma example_clean:
  "filepath_Clean ''/data/repos/alpha'' = ''/data/repos/alpha''"
  "filepath_Clean ''/data/repos/alpha/'' = ''/data/repos/alpha''"
  "filepath_Clean ''/data/repos/alpha/src'' = ''/data/repos/alpha/src''"
  "filepath_Clean ''/data/repos/locked'' = ''/data/repos/locked''"
  "filepath_Clean ''/data/repos/locked/src'' = ''/data/repos/locked/src''"
  "filepath_Clean ''/data/repos/beta/'' = ''/data/repos/beta''"
  by (simp_all add: filepath_Clean_def separator_def)

lemma example_repoPath:
  "repoPath_of example_state \<lparr>Name = ''/data/repos/alpha/src/main.txt'', Op = Write\<rparr>
     = ''data/repos/alpha''"
  by (simp add: repoPath_of_def example_state_def example_config_def example_split
      example_segments separator_def)

lemma example_targetPath:
  "WatchPath (config s0) = ''src'' \<Longrightarrow>
     targetPath_of s0 ''/data/repos/alpha'' = ''/data/repos/alpha/src''"
  "WatchPath (config s0) = ''src'' \<Longrightarrow>
     targetPath_of s0 ''/data/repos/alpha/'' = ''/data/repos/alpha/src''"
  "WatchPath (config s0) = ''src'' \<Longrightarrow>
     targetPath_of s0 ''/data/repos/locked'' = ''/data/repos/locked/src''"
  by (simp_all add: targetPath_of_def example_clean)

lemma example_qualifies:
  "WatchPath (config s0) = ''src'' \<Longrightarrow>
     qualifies (example_world growcap outcome) s0 ''/data/repos/alpha''"
  "WatchPath (config s0) = ''src'' \<Longrightarrow>
     qualifies (example_world growcap outcome) s0 ''/data/repos/alpha/''"
  "WatchPath (config s0) = ''src'' \<Longrightarrow>
     \<not> qualifies (example_world growcap outcome) s0 ''/data/repos/locked''"
  by (simp_all add: qualifies_def is_directory_def example_targetPath example_clean
      example_world_def example_Stat_def)

lemma example_WatchPath:
  "WatchPath (config example_state) = ''src''"
  "WatchPath (config (example_state\<lparr>watcher := None\<rparr>)) = ''src''"
  "WatchPath (config example_added_state) = ''src''"
  by (simp_all add: example_state_def example_added_state_def example_config_def)

lemma example_addRepo:
  "addRepo (example_world growcap outcome) ''/data/repos/alpha/'' example_state
     = Inr example_added_state"
proof -
  have fresh: "currentlyWatching example_state (filepath_Clean ''/data/repos/alpha/'') = None"
    by (simp add: example_state_def)
  have inner: "watcher example_state = Some {}"
    by (simp add: example_state_def)
  have target: "targetPath_of example_state ''/data/repos/alpha/'' = ''/data/repos/alpha/src''"
    by (rule example_targetPath(2) [OF example_WatchPath(1)])
  have added: "watcher_Add (example_world growcap outcome) ''/data/repos/alpha/src'' = None"
    by (simp add: example_world_def)
  show ?thesis
    using addRepo_new [OF example_qualifies(2) [OF example_WatchPath(1)] fresh inner,
        of growcap outcome, unfolded target example_clean added]
    by (simp add: example_added_state_def example_state_def)
qed

lemma example_addRepo_nil_watcher:
  "addRepo (example_world growcap outcome) ''/data/repos/alpha/'' (example_state\<lparr>watcher := None\<rparr>)
     = Inl NilDereference"
proof -
  have fresh: "currentlyWatching (example_state\<lparr>watcher := None\<rparr>)
      (filepath_Clean ''/data/repos/alpha/'') = None"
    by (simp add: example_state_def)
  have inner: "watcher (example_state\<lparr>watcher := None\<rparr>) = None"
    by simp
  show ?thesis
    by (rule addRepo_nil_watcher [OF example_qualifies(2) [OF example_WatchPath(2)] fresh inner])
qed

lemma example_removeRepo:
  "removeRepo ''/data/repos/alpha'' example_added_state
     = Inr (example_state\<lparr>logged :=
         [(logInfo, ''[RepoWatch] Adding repo: /data/repos/alpha''),
          (logInfo, ''[RepoWatch] Removing repo: /data/repos/alpha'')]\<rparr>)"
  by (simp add: removeRepo_def example_clean example_added_state_def example_state_def
      example_config_def log_def Let_def)

lemma invalid_pattern_setup:
  "main_setup invalid_pattern_startup =
     \<lparr>config = example_config\<lparr>WatchRegexp := ''(''\<rparr>,
      reposWatcher = Some {}, watcher = Some {}, watcherRegexp = None,
      currentlyWatching = Map.empty,
      logged = [(logInfo, ''Starting repos watcher...''),
                (logError, ''error parsing regexp: missing closing )'')],
      executed = []\<rparr>"
  by (simp add: main_setup_def invalid_pattern_startup_def initial_state_def checkError_def
      log_def Let_def)

lemma dotdot_setup:
  "main_setup dotdot_startup =
     \<lparr>config = dotdot_config,
      reposWatcher = Some {}, watcher = Some {}, watcherRegexp = Some example_pattern,
      currentlyWatching = Map.empty,
      logged = [(logInfo, ''Starting repos watcher...'')],
      executed = []\<rparr>"
  by (simp add: main_setup_def dotdot_startup_def initial_state_def checkError_def
      log_def Let_def)

lemma dotdot_clean:
  "filepath_Clean ''/data/repos/../repos/alpha'' = ''/data/repos/alpha''"
  by (simp add: filepath_Clean_def separator_def)

lemma dotdot_targetPath:
  "WatchPath (config s0) = ''src'' \<Longrightarrow>
     targetPath_of s0 ''/data/repos/../repos/alpha'' = ''/data/repos/alpha/src''"
  by (simp add: targetPath_of_def dotdot_clean example_clean)

lemma dotdot_segments:
  "segments ''/data/repos/../repos'' = [''data'', ''repos'', ''..'', ''repos'']"
  by (simp add: segments_def separator_def)

lemma dotdot_dir_slice:
  "filterEmptyParts double_growcap (strings_Split ''/data/repos/alpha/src/'' separator)
     = \<lparr>slice_array = [''data'', ''repos'', ''alpha'', ''src''], slice_len = 4\<rparr>"
  by (simp add: filterEmptyParts_def empty_slice_def append_go_def slice_cap_def slice_elems_def
      double_growcap_def separator_def Let_def)

section \<open>The repository set along a run of the root loop\<close>

text \<open>
  Along any run of the root loop the configuration stays as it is, and every key of
  \<open>currentlyWatching\<close> at the end was a key at the start or is the cleaned path of an event
  of the run, at whose handling that path and its watch subpath were directories.
\<close>

lemma addRepo_config: "addRepo w path s = Inr s' \<Longrightarrow> config s' = config s"
  using addRepo_cases [of w path s s'] by auto

lemma removeRepo_config: "removeRepo path s = Inr s' \<Longrightarrow> config s' = config s"
  by (auto simp add: removeRepo_def Let_def log_def split: option.splits)

lemma removeRepo_members:
  "removeRepo path s = Inr s' \<Longrightarrow> currentlyWatching s' k = Some b \<Longrightarrow> currentlyWatching s k = Some b"
  by (auto simp add: removeRepo_def Let_def log_def split: option.splits if_splits)

lemma if_chain_cases:
  "(if a then x else if b then x else if c then y else if d then y else z) = x
   \<or> (if a then x else if b then x else if c then y else if d then y else z) = y
   \<or> (if a then x else if b then x else if c then y else if d then y else z) = z"
  by simp

lemma processReposEvent_step:
  assumes "processReposEvent w event s = Inr s'"
  shows "config s' = config s \<and>
    (\<forall>k b. currentlyWatching s' k = Some b \<longrightarrow>
       currentlyWatching s k = Some b \<or>
       (k = filepath_Clean (Name event) \<and> qualifies w s (Name event)))"
proof -
  have "processReposEvent w event s = addRepo w (Name event) s
      \<or> processReposEvent w event s = removeRepo (Name event) s
      \<or> processReposEvent w event s = Inr s"
    unfolding processReposEvent_def by (rule if_chain_cases)
  with assms consider
      (add) "addRepo w (Name event) s = Inr s'"
    | (remove) "removeRepo (Name event) s = Inr s'"
    | (same) "s' = s"
    by auto
  then show ?thesis
  proof cases
    case add
    with addRepo_cases [OF add] show ?thesis
      by (auto split: if_splits)
  next
    case remove
    then show ?thesis
      using removeRepo_config removeRepo_members by blast
  next
    case same
    then show ?thesis by simp
  qed
qed

lemma reposLoop_members_checked:
  "reposLoop events s = Inr s' \<Longrightarrow> currentlyWatching s' k = Some b \<Longrightarrow>
     currentlyWatching s k = Some b \<or>
     (\<exists>(w, event) \<in> set events.
         k = filepath_Clean (Name event) \<and> is_directory w k \<and>
         is_directory w (filepath_Clean (k @ ''/'' @ WatchPath (config s))))"
proof (induction events arbitrary: s)
  case Nil
  then show ?case by simp
next
  case (Cons a events)
  obtain w event where a: "a = (w, event)" by (cases a)
  from Cons.prems(1) a obtain s1 where
    step: "processReposEvent w event s = Inr s1" and rest: "reposLoop events s1 = Inr s'"
    by (auto split: sum.splits)
  from processReposEvent_step [OF step]
  have cfg: "config s1 = config s"
    and mem: "\<And>k b. currentlyWatching s1 k = Some b \<Longrightarrow>
       currentlyWatching s k = Some b \<or>
       (k = filepath_Clean (Name event) \<and> qualifies w s (Name event))"
    by auto
  from Cons.IH [OF rest Cons.prems(2)] show ?case
  proof
    assume "currentlyWatching s1 k = Some b"
    from mem [OF this] show ?thesis
      using a by (auto simp add: qualifies_def targetPath_of_def)
  next
    assume "\<exists>(w, event) \<in> set events.
         k = filepath_Clean (Name event) \<and> is_directory w k \<and>
         is_directory w (filepath_Clean (k @ ''/'' @ WatchPath (config s1)))"
    then show ?thesis
      using cfg by auto
  qed
qed

section \<open>A slice expression inside the capacity, beyond the length\<close>

text \<open>
  With the doubling growth of the Go runtime a slice of three segments has capacity four,
  so \<open>[:4]\<close> does not panic: it shows the zero value behind the window, and the joined
  path ends in a separator.
\<close>

lemma slice_within_capacity_example:
  "filterEmptyParts double_growcap (strings_Split ''/a/b/c/'' separator)
     = \<lparr>slice_array = [''a'', ''b'', ''c'', []], slice_len = 3\<rparr>"
  "slice_to \<lparr>slice_array = [''a'', ''b'', ''c'', []], slice_len = 3\<rparr> 4
     = Inr \<lparr>slice_array = [''a'', ''b'', ''c'', []], slice_len = 4\<rparr>"
  "strings_Join (slice_elems \<lparr>slice_array = [''a'', ''b'', ''c'', []], slice_len = 4\<rparr>) [separator]
     = ''a/b/c/''"
  by (simp_all add: filterEmptyParts_def empty_slice_def append_go_def slice_cap_def
      slice_elems_def slice_to_def double_growcap_def separator_def Let_def)

section \<open>What processEvent does on the answers it provides for\<close>

text \<open>
  processEvent returns the state unchanged, and starts no command, when \<open>os.Stat\<close> reports
  that the path does not exist, when it reports a directory (in both cases whether or not
  the name matches the pattern), and when it reports a regular file whose base name the
  compiled pattern rejects.
\<close>

theorem processEvent_rejects:
  "(os_Stat w (Name event) = Inl err \<and> os_IsNotExist err \<longrightarrow> processEvent w event s = Inr s)
   \<and> (os_Stat w (Name event) = Inr info \<and> IsDir info \<longrightarrow> processEvent w event s = Inr s)
   \<and> (os_Stat w (Name event) = Inr info \<and> \<not> IsDir info \<and> watcherRegexp s = Some re
        \<and> \<not> re (snd (filepath_Split (Name event))) \<longrightarrow> processEvent w event s = Inr s)"
  by (cases "filepath_Split (Name event)") (simp add: processEvent_def)

text \<open>The statement above at the example inputs, with its premises met there.\<close>

theorem processEvent_rejects_witness:
  "os_Stat (example_world double_growcap (Inr ''done'')) ''/data/repos/gone/src/main.txt''
     = Inl ErrNotExist
   \<and> os_IsNotExist ErrNotExist
   \<and> processEvent (example_world double_growcap (Inr ''done''))
        \<lparr>Name = ''/data/repos/gone/src/main.txt'', Op = Remove\<rparr> example_state = Inr example_state
   \<and> os_Stat (example_world double_growcap (Inr ''done'')) ''/data/repos/alpha/src''
        = Inr \<lparr>IsDir = True\<rparr>
   \<and> processEvent (example_world double_growcap (Inr ''done''))
        \<lparr>Name = ''/data/repos/alpha/src'', Op = Chmod\<rparr> example_state = Inr example_state
   \<and> os_Stat (example_world double_growcap (Inr ''done'')) ''/data/repos/alpha/src/notes.md''
        = Inr \<lparr>IsDir = False\<rparr>
   \<and> watcherRegexp example_state = Some example_pattern
   \<and> \<not> example_pattern (snd (filepath_Split ''/data/repos/alpha/src/notes.md''))
   \<and> processEvent (example_world double_growcap (Inr ''done''))
        \<lparr>Name = ''/data/repos/alpha/src/notes.md'', Op = Write\<rparr> example_state = Inr example_state"
proof -
  let ?w = "example_world double_growcap (Inr ''done'')"
  let ?gone = "\<lparr>Name = ''/data/repos/gone/src/main.txt'', Op = Remove\<rparr>"
  let ?dir = "\<lparr>Name = ''/data/repos/alpha/src'', Op = Chmod\<rparr>"
  let ?notes = "\<lparr>Name = ''/data/repos/alpha/src/notes.md'', Op = Write\<rparr>"
  have a: "os_Stat ?w (Name ?gone) = Inl ErrNotExist \<and> os_IsNotExist ErrNotExist"
    by (simp add: example_world_def example_Stat_def)
  have b: "os_Stat ?w (Name ?dir) = Inr \<lparr>IsDir = True\<rparr> \<and> IsDir \<lparr>IsDir = True\<rparr>"
    by (simp add: example_world_def example_Stat_def)
  have c: "os_Stat ?w (Name ?notes) = Inr \<lparr>IsDir = False\<rparr> \<and> \<not> IsDir \<lparr>IsDir = False\<rparr>
      \<and> watcherRegexp example_state = Some example_pattern
      \<and> \<not> example_pattern (snd (filepath_Split (Name ?notes)))"
    by (simp add: example_world_def example_Stat_def example_state_def example_split
        example_pattern_def)
  from processEvent_rejects [of ?w ?gone ErrNotExist example_state] a
  have one: "processEvent ?w ?gone example_state = Inr example_state"
    by blast
  from processEvent_rejects [of ?w ?dir _ example_state "\<lparr>IsDir = True\<rparr>"] b
  have two: "processEvent ?w ?dir example_state = Inr example_state"
    by blast
  from processEvent_rejects [of ?w ?notes _ example_state "\<lparr>IsDir = False\<rparr>" example_pattern] c
  have three: "processEvent ?w ?notes example_state = Inr example_state"
    by blast
  from a b c one two three show ?thesis
    by simp
qed

text \<open>
  For an existing regular file whose base name matches the compiled pattern, in a directory
  with more segments than the configured root has, processEvent calls \<open>cmd.Output\<close> for
  \<open>sh -c\<close> with the configured command once, in the path made of the first segments. It
  logs the message of the run at info level; then it logs the error of the command at error
  level, or its standard output at info level. In both cases it returns, so the file loop
  goes on with the next event, and the repository set and the subscriptions are unchanged.
\<close>

theorem processEvent_command_outcome:
  assumes "os_Stat w (Name event) = Inr info" and "\<not> IsDir info"
    and "watcherRegexp s = Some re" and "re (snd (filepath_Split (Name event)))"
    and "length (segments (ReposRoot (config s)))
         < length (segments (fst (filepath_Split (Name event))))"
  shows "\<exists>s'. processEvent w event s = Inr s'
     \<and> fileLoop ((w, event) # rest) s = fileLoop rest s'
     \<and> currentlyWatching s' = currentlyWatching s
     \<and> watcher s' = watcher s
     \<and> executed s' = executed s @ [([''sh'', ''-c'', Execute (config s)], repoPath_of s event)]
     \<and> logged s' = logged s @
          [(logInfo, execMessage (Execute (config s)) (repoPath_of s event)),
           (case cmd_Output w (Execute (config s)) (repoPath_of s event) of
              Inl err \<Rightarrow> (logError, err)
            | Inr output \<Rightarrow> (logInfo, output))]"
  using processEvent_inside_root [OF assms] by simp

text \<open>The statement above at the example inputs, with its premises met there.\<close>

theorem processEvent_command_outcome_witness:
  "os_Stat (example_world double_growcap (Inl ''exit status 2'')) ''/data/repos/alpha/src/main.txt''
     = Inr \<lparr>IsDir = False\<rparr>
   \<and> watcherRegexp example_added_state = Some example_pattern
   \<and> example_pattern (snd (filepath_Split ''/data/repos/alpha/src/main.txt''))
   \<and> length (segments (ReposRoot (config example_added_state)))
       < length (segments (fst (filepath_Split ''/data/repos/alpha/src/main.txt'')))
   \<and> (\<exists>s'. processEvent (example_world double_growcap (Inl ''exit status 2''))
               \<lparr>Name = ''/data/repos/alpha/src/main.txt'', Op = Write\<rparr> example_added_state = Inr s'
         \<and> fileLoop [(example_world double_growcap (Inl ''exit status 2''),
                        \<lparr>Name = ''/data/repos/alpha/src/main.txt'', Op = Write\<rparr>)]
               example_added_state = Inr s'
         \<and> currentlyWatching s' = [''/data/repos/alpha'' \<mapsto> True]
         \<and> watcher s' = Some {''/data/repos/alpha/src''}
         \<and> executed s' = [([''sh'', ''-c'', ''make''], ''data/repos/alpha'')]
         \<and> logged s' = [(logInfo, ''[RepoWatch] Adding repo: /data/repos/alpha''),
                         (logInfo, execMessage ''make'' ''data/repos/alpha''),
                         (logError, ''exit status 2'')])"
proof -
  let ?w = "example_world double_growcap (Inl ''exit status 2'')"
  let ?e = "\<lparr>Name = ''/data/repos/alpha/src/main.txt'', Op = Write\<rparr>"
  have stat: "os_Stat ?w (Name ?e) = Inr \<lparr>IsDir = False\<rparr>"
    by (simp add: example_world_def example_Stat_def)
  have dir: "\<not> IsDir \<lparr>IsDir = False\<rparr>"
    by simp
  have re: "watcherRegexp example_added_state = Some example_pattern"
    by (simp add: example_added_state_def example_state_def)
  have match: "example_pattern (snd (filepath_Split (Name ?e)))"
    by (simp add: example_split example_pattern_def)
  have inside: "length (segments (ReposRoot (config example_added_state)))
      < length (segments (fst (filepath_Split (Name ?e))))"
    by (simp add: example_split example_segments example_added_state_def example_state_def
        example_config_def)
  have path: "repoPath_of example_added_state ?e = ''data/repos/alpha''"
    by (simp add: repoPath_of_def example_added_state_def example_state_def example_config_def
        example_split example_segments separator_def)
  have cmd: "cmd_Output ?w c d = Inl ''exit status 2''" for c d
    by (simp add: example_world_def)
  have given: "Execute (config example_added_state) = ''make''
      \<and> currentlyWatching example_added_state = [''/data/repos/alpha'' \<mapsto> True]
      \<and> watcher example_added_state = Some {''/data/repos/alpha/src''}
      \<and> executed example_added_state = []
      \<and> logged example_added_state = [(logInfo, ''[RepoWatch] Adding repo: /data/repos/alpha'')]"
    by (simp add: example_added_state_def example_state_def example_config_def)
  from processEvent_command_outcome [OF stat dir re match inside, of "[]"]
  obtain s' where run: "processEvent ?w ?e example_added_state = Inr s'"
    and loop: "fileLoop [(?w, ?e)] example_added_state = fileLoop [] s'"
    and members: "currentlyWatching s' = currentlyWatching example_added_state"
    and subs: "watcher s' = watcher example_added_state"
    and ex: "executed s' = executed example_added_state
           @ [([''sh'', ''-c'', Execute (config example_added_state)],
               repoPath_of example_added_state ?e)]"
    and lg: "logged s' = logged example_added_state @
          [(logInfo, execMessage (Execute (config example_added_state))
                       (repoPath_of example_added_state ?e)),
           (case cmd_Output ?w (Execute (config example_added_state))
                   (repoPath_of example_added_state ?e) of
              Inl err \<Rightarrow> (logError, err)
            | Inr output \<Rightarrow> (logInfo, output))]"
    by blast
  have loop': "fileLoop [(?w, ?e)] example_added_state = Inr s'"
    unfolding loop by simp
  have members': "currentlyWatching s' = [''/data/repos/alpha'' \<mapsto> True]"
    unfolding members using given by blast
  have subs': "watcher s' = Some {''/data/repos/alpha/src''}"
    unfolding subs using given by blast
  have ex': "executed s' = [([''sh'', ''-c'', ''make''], ''data/repos/alpha'')]"
    unfolding ex path using given by simp
  have lg': "logged s' = [(logInfo, ''[RepoWatch] Adding repo: /data/repos/alpha''),
                      (logInfo, execMessage ''make'' ''data/repos/alpha''),
                      (logError, ''exit status 2'')]"
    unfolding lg path cmd using given by simp
  from run loop' members' subs' ex' lg'
  have "\<exists>s'. processEvent ?w ?e example_added_state = Inr s'
      \<and> fileLoop [(?w, ?e)] example_added_state = Inr s'
      \<and> currentlyWatching s' = [''/data/repos/alpha'' \<mapsto> True]
      \<and> watcher s' = Some {''/data/repos/alpha/src''}
      \<and> executed s' = [([''sh'', ''-c'', ''make''], ''data/repos/alpha'')]
      \<and> logged s' = [(logInfo, ''[RepoWatch] Adding repo: /data/repos/alpha''),
                      (logInfo, execMessage ''make'' ''data/repos/alpha''),
                      (logError, ''exit status 2'')]"
    by blast
  with stat re match inside show ?thesis
    by simp
qed

section \<open>The claims\<close>

text \<open>
  Claim C1. With the repos root \<open>/data/repos\<close> and the watch path \<open>src\<close>, an event for the
  regular file \<open>/data/repos/alpha/src/main.txt\<close> whose name matches the pattern makes
  processEvent take the first segments of the event's directory, one more than the root
  has, and join them with the separator. The code does so, and what it gets and hands to
  the command as working directory is \<open>data/repos/alpha\<close>: filterEmptyParts has dropped the
  empty first segment of the absolute path, so the leading separator is lost. This holds
  whatever capacity \<open>append\<close> picks and however the command ends.
\<close>

theorem alpha_event_working_directory:
  "repoPath_of example_state \<lparr>Name = ''/data/repos/alpha/src/main.txt'', Op = Write\<rparr>
     = ''data/repos/alpha''
   \<and> (\<exists>s'. processEvent (example_world growcap outcome)
              \<lparr>Name = ''/data/repos/alpha/src/main.txt'', Op = Write\<rparr> example_state = Inr s'
        \<and> executed s' = [([''sh'', ''-c'', ''make''], ''data/repos/alpha'')])"
proof -
  let ?w = "example_world growcap outcome"
  let ?e = "\<lparr>Name = ''/data/repos/alpha/src/main.txt'', Op = Write\<rparr>"
  have stat: "os_Stat ?w (Name ?e) = Inr \<lparr>IsDir = False\<rparr>"
    by (simp add: example_world_def example_Stat_def)
  have dir: "\<not> IsDir \<lparr>IsDir = False\<rparr>"
    by simp
  have re: "watcherRegexp example_state = Some example_pattern"
    by (simp add: example_state_def)
  have match: "example_pattern (snd (filepath_Split (Name ?e)))"
    by (simp add: example_split example_pattern_def)
  have inside: "length (segments (ReposRoot (config example_state)))
      < length (segments (fst (filepath_Split (Name ?e))))"
    by (simp add: example_split example_segments example_state_def example_config_def)
  from processEvent_inside_root [OF stat dir re match inside] example_repoPath
  show ?thesis
    by (simp add: example_state_def example_config_def)
qed

text \<open>
  Claim C2. The slice expression \<open>dirPathParts[:len(reposRootParts)+1]\<close> is not always in
  range: there is an event for a regular file with a matching name, whose directory has
  fewer segments than the root has plus one, on which processEvent panics with slice bounds
  out of range instead of returning. The file \<open>/main.txt\<close> is one, for the root
  \<open>/data/repos\<close>, whatever capacity \<open>append\<close> picks: its directory has no segment, so the
  slice has capacity 0.
\<close>

theorem slicing_out_of_range_reachable:
  "\<exists>w event s re info.
      runtime_growcap w = growcap
    \<and> os_Stat w (Name event) = Inr info \<and> \<not> IsDir info
    \<and> watcherRegexp s = Some re \<and> re (snd (filepath_Split (Name event)))
    \<and> length (segments (fst (filepath_Split (Name event))))
        < length (segments (ReposRoot (config s))) + 1
    \<and> processEvent w event s
        = Inl (SliceBoundsOutOfRange (length (segments (ReposRoot (config s))) + 1) 0)"
proof -
  let ?w = "example_world growcap outcome"
  let ?e = "\<lparr>Name = ''/main.txt'', Op = Write\<rparr>"
  have stat: "os_Stat ?w (Name ?e) = Inr \<lparr>IsDir = False\<rparr>"
    by (simp add: example_world_def example_Stat_def)
  have dir: "\<not> IsDir \<lparr>IsDir = False\<rparr>"
    by simp
  have re: "watcherRegexp example_state = Some example_pattern"
    by (simp add: example_state_def)
  have match: "example_pattern (snd (filepath_Split (Name ?e)))"
    by (simp add: example_split example_pattern_def)
  have none: "filter (\<lambda>x. x \<noteq> []) (strings_Split (fst (filepath_Split (Name ?e))) separator) = []"
    by (simp add: example_split separator_def)
  have cap: "slice_cap (filterEmptyParts (runtime_growcap ?w)
                (strings_Split (fst (filepath_Split (Name ?e))) separator)) = 0"
    by (rule filterEmptyParts_no_parts [OF none])
  have few: "length (segments (fst (filepath_Split (Name ?e))))
      < length (segments (ReposRoot (config example_state))) + 1"
    by (simp add: example_split example_segments example_state_def example_config_def)
  have "processEvent ?w ?e example_state
      = Inl (SliceBoundsOutOfRange (length (segments (ReposRoot (config example_state))) + 1) 0)"
    using processEvent_out_of_range [OF stat dir re match] cap by simp
  moreover have "runtime_growcap ?w = growcap"
    by (simp add: example_world_def)
  ultimately show ?thesis
    using stat dir re match few by blast
qed

text \<open>
  Claim C3 says that a pattern that does not compile stops the start. The code hands the
  error of \<open>regexp.Compile\<close> to checkError, which logs it and returns, and main goes on to
  watchRepos: for the pattern \<open>(\<close> the run reaches the state in which both loops are
  running, the root and the repository are watched, the error is in the log and
  \<open>watcherRegexp\<close> is nil; the first event for a regular file then panics in
  \<open>watcherRegexp.Match\<close>.
\<close>

theorem invalid_pattern_reaches_watch_loops:
  "\<exists>s. main invalid_pattern_startup (example_world growcap outcome) = Inr (Watching, s)
     \<and> watcherRegexp s = None
     \<and> reposWatcher s = Some {''/data/repos''}
     \<and> watcher s = Some {''/data/repos/alpha/src''}
     \<and> logged s = [(logInfo, ''Starting repos watcher...''),
                   (logError, ''error parsing regexp: missing closing )''),
                   (logInfo, ''[RepoWatch] Adding repo: /data/repos/alpha'')]
     \<and> processEvent (example_world growcap outcome)
          \<lparr>Name = ''/data/repos/alpha/src/main.txt'', Op = Write\<rparr> s = Inl NilDereference"
proof -
  let ?w = "example_world growcap outcome"
  let ?s0 = "main_setup invalid_pattern_startup"
  let ?s1 = "?s0\<lparr>reposWatcher := Some {''/data/repos''}\<rparr>"
  let ?s2 = "?s1\<lparr>watcher := Some {''/data/repos/alpha/src''},
                 currentlyWatching := [''/data/repos/alpha'' \<mapsto> True],
                 logged := logged ?s1 @ [(logInfo, ''[RepoWatch] Adding repo: /data/repos/alpha'')]\<rparr>"
  have wp: "WatchPath (config ?s1) = ''src''"
    by (simp add: invalid_pattern_setup example_config_def)
  have q: "qualifies ?w ?s1 ''/data/repos/alpha''"
    by (rule example_qualifies(1) [OF wp])
  have fresh: "currentlyWatching ?s1 (filepath_Clean ''/data/repos/alpha'') = None"
    by (simp add: invalid_pattern_setup)
  have inner: "watcher ?s1 = Some {}"
    by (simp add: invalid_pattern_setup)
  have alpha: "addRepo ?w ''/data/repos/alpha'' ?s1 = Inr ?s2"
    using addRepo_new [OF q fresh inner]
    by (simp add: invalid_pattern_setup example_targetPath example_clean example_config_def
        example_world_def)
  have wp2: "WatchPath (config ?s2) = ''src''"
    by (simp add: invalid_pattern_setup example_config_def)
  have locked: "addRepo ?w ''/data/repos/locked'' ?s2 = Inr ?s2"
    by (rule addRepo_not_qualifying [OF example_qualifies(3) [OF wp2]])
  have repos: "addRepos ?w [''/data/repos/alpha'', ''/data/repos/locked''] ?s1 = Inr ?s2"
    using alpha locked by simp
  have root: "ReposRoot (config ?s0) = ''/data/repos''"
    by (simp add: invalid_pattern_setup example_config_def)
  have watch: "watchRepos ?w ''/data/repos'' ?s0 = Inr (Watching, ?s2)"
    using repos
    by (simp add: watchRepos_def example_world_def example_Stat_def invalid_pattern_setup)
  have run: "main invalid_pattern_startup ?w = Inr (Watching, ?s2)"
    using watch root by (simp add: main_def Let_def)
  have event: "processEvent ?w \<lparr>Name = ''/data/repos/alpha/src/main.txt'', Op = Write\<rparr> ?s2
      = Inl NilDereference"
    by (simp add: processEvent_def example_world_def example_Stat_def example_split
        invalid_pattern_setup)
  from run event show ?thesis
    by (simp add: invalid_pattern_setup)
qed

text \<open>
  Claim C4. Each operation on the repository set keeps the invariant that a path enters
  \<open>currentlyWatching\<close> only when it and its watch subpath were directories at that moment.
  A key that addRepo adds is the cleaned path, and \<open>os.Stat\<close> has just reported both the
  path and the watch subpath below it as directories; addRepo changes nothing at all (map,
  subscriptions or log) unless both checks passed; it can panic (nil watcher) only after
  both checks passed; removeRepo adds no key.
\<close>

theorem repo_set_insertion_checked:
  "(addRepo w path s = Inr s' \<and> currentlyWatching s k = None \<and> currentlyWatching s' k = Some b
      \<longrightarrow> k = filepath_Clean path \<and> is_directory w k \<and> is_directory w (targetPath_of s path))
   \<and> (addRepo w path s = Inr s' \<and> s' \<noteq> s \<longrightarrow> qualifies w s path)
   \<and> (addRepo w path s = Inl p \<longrightarrow> qualifies w s path)
   \<and> (removeRepo path s = Inr s' \<longrightarrow> dom (currentlyWatching s') \<subseteq> dom (currentlyWatching s))"
proof -
  have inserted: "k = filepath_Clean path \<and> is_directory w k \<and> is_directory w (targetPath_of s path)"
    if a: "addRepo w path s = Inr s' \<and> currentlyWatching s k = None \<and> currentlyWatching s' k = Some b"
  proof -
    from a have "s' \<noteq> s" by auto
    with a addRepo_cases [of w path s s']
    have q: "qualifies w s path"
      and m: "currentlyWatching s' = (currentlyWatching s)(filepath_Clean path \<mapsto> True)"
      by auto
    from a m have "k = filepath_Clean path"
      by (auto split: if_splits)
    with q show ?thesis
      by (simp add: qualifies_def)
  qed
  have changed: "qualifies w s path" if "addRepo w path s = Inr s' \<and> s' \<noteq> s"
    using that addRepo_cases [of w path s s'] by auto
  have panicked: "qualifies w s path" if "addRepo w path s = Inl p"
    using that addRepo_not_qualifying [of w s path] by auto
  have removed: "dom (currentlyWatching s') \<subseteq> dom (currentlyWatching s)"
    if "removeRepo path s = Inr s'"
    using that
    by (auto simp add: removeRepo_def Let_def log_def split: option.splits if_splits)
  from inserted changed panicked removed show ?thesis
    by blast
qed

text \<open>The statement above at the example inputs, with its premises met there.\<close>

theorem repo_set_insertion_checked_witness:
  "addRepo (example_world double_growcap (Inr ''done'')) ''/data/repos/alpha/'' example_state
     = Inr example_added_state
   \<and> currentlyWatching example_state ''/data/repos/alpha'' = None
   \<and> currentlyWatching example_added_state ''/data/repos/alpha'' = Some True
   \<and> example_added_state \<noteq> example_state
   \<and> ''/data/repos/alpha'' = filepath_Clean ''/data/repos/alpha/''
   \<and> is_directory (example_world double_growcap (Inr ''done'')) ''/data/repos/alpha''
   \<and> is_directory (example_world double_growcap (Inr ''done''))
        (targetPath_of example_state ''/data/repos/alpha/'')
   \<and> qualifies (example_world double_growcap (Inr ''done'')) example_state ''/data/repos/alpha/''
   \<and> addRepo (example_world double_growcap (Inr ''done'')) ''/data/repos/alpha/''
        (example_state\<lparr>watcher := None\<rparr>) = Inl NilDereference
   \<and> qualifies (example_world double_growcap (Inr ''done'')) (example_state\<lparr>watcher := None\<rparr>)
        ''/data/repos/alpha/''
   \<and> dom (currentlyWatching (example_state\<lparr>logged :=
         [(logInfo, ''[RepoWatch] Adding repo: /data/repos/alpha''),
          (logInfo, ''[RepoWatch] Removing repo: /data/repos/alpha'')]\<rparr>))
        \<subseteq> dom (currentlyWatching example_added_state)"
proof -
  let ?w = "example_world double_growcap (Inr ''done'')"
  let ?gone = "example_state\<lparr>logged :=
         [(logInfo, ''[RepoWatch] Adding repo: /data/repos/alpha''),
          (logInfo, ''[RepoWatch] Removing repo: /data/repos/alpha'')]\<rparr>"
  have add: "addRepo ?w ''/data/repos/alpha/'' example_state = Inr example_added_state"
    by (rule example_addRepo)
  have before: "currentlyWatching example_state ''/data/repos/alpha'' = None"
    by (simp add: example_state_def)
  have after: "currentlyWatching example_added_state ''/data/repos/alpha'' = Some True"
    by (simp add: example_added_state_def)
  have changed: "example_added_state \<noteq> example_state"
    using before after by auto
  have nil: "addRepo ?w ''/data/repos/alpha/'' (example_state\<lparr>watcher := None\<rparr>)
      = Inl NilDereference"
    by (rule example_addRepo_nil_watcher)
  have rem: "removeRepo ''/data/repos/alpha'' example_added_state = Inr ?gone"
    by (rule example_removeRepo)
  from repo_set_insertion_checked
    [of ?w "''/data/repos/alpha/''" example_state example_added_state "''/data/repos/alpha''" True]
    add before after changed
  have one: "''/data/repos/alpha'' = filepath_Clean ''/data/repos/alpha/''
      \<and> is_directory ?w ''/data/repos/alpha''
      \<and> is_directory ?w (targetPath_of example_state ''/data/repos/alpha/'')
      \<and> qualifies ?w example_state ''/data/repos/alpha/''"
    by blast
  from repo_set_insertion_checked
    [of ?w "''/data/repos/alpha/''" "example_state\<lparr>watcher := None\<rparr>" _ _ _ NilDereference] nil
  have two: "qualifies ?w (example_state\<lparr>watcher := None\<rparr>) ''/data/repos/alpha/''"
    by blast
  from repo_set_insertion_checked
    [of _ "''/data/repos/alpha''" example_added_state ?gone] rem
  have three: "dom (currentlyWatching ?gone) \<subseteq> dom (currentlyWatching example_added_state)"
    by blast
  from add before after changed one nil two three show ?thesis
    by blast
qed

text \<open>
  Claim C5. addRepo is idempotent. With the inner watcher created, a call returns a state,
  and the same call on that state returns it unchanged: map, subscriptions and log are those
  of one call. When the path qualified at the first call (it is under the repos root and
  holds the watch subpath as a directory), the second call changes nothing whatever the
  file system has become. A call for a path that is already a key, or that does not
  qualify, returns the state as it was: no change of the map or the subscriptions, no log
  line.
\<close>

theorem addRepo_idempotent:
  "(watcher s = Some paths \<longrightarrow>
      (\<exists>s1. addRepo w path s = Inr s1
         \<and> addRepo w path s1 = Inr s1
         \<and> (qualifies w s path \<longrightarrow> (\<forall>w'. addRepo w' path s1 = Inr s1))))
   \<and> (currentlyWatching s (filepath_Clean path) = Some b \<longrightarrow> addRepo w path s = Inr s)
   \<and> (\<not> qualifies w s path \<longrightarrow> addRepo w path s = Inr s)"
proof -
  have twice: "\<exists>s1. addRepo w path s = Inr s1
         \<and> addRepo w path s1 = Inr s1
         \<and> (qualifies w s path \<longrightarrow> (\<forall>w'. addRepo w' path s1 = Inr s1))"
    if inner: "watcher s = Some paths"
  proof (cases "qualifies w s path")
    case False
    then show ?thesis by (simp add: addRepo_not_qualifying)
  next
    case True
    show ?thesis
    proof (cases "currentlyWatching s (filepath_Clean path)")
      case (Some c)
      then show ?thesis by (simp add: addRepo_member)
    next
      case None
      let ?s1 = "s\<lparr>watcher := Some (case watcher_Add w (targetPath_of s path) of
                                 None \<Rightarrow> insert (targetPath_of s path) paths
                               | Some err \<Rightarrow> paths),
              currentlyWatching := (currentlyWatching s)(filepath_Clean path \<mapsto> True),
              logged := logged s @ [(logInfo, ''[RepoWatch] Adding repo: '' @ filepath_Clean path)]\<rparr>"
      have first: "addRepo w path s = Inr ?s1"
        by (rule addRepo_new [OF True None inner])
      have "currentlyWatching ?s1 (filepath_Clean path) = Some True"
        by simp
      then have again: "addRepo w' path ?s1 = Inr ?s1" for w'
        by (rule addRepo_member)
      from first again show ?thesis
        by simp
    qed
  qed
  have member: "addRepo w path s = Inr s" if "currentlyWatching s (filepath_Clean path) = Some b"
    using that by (rule addRepo_member)
  have outside: "addRepo w path s = Inr s" if "\<not> qualifies w s path"
    using that by (rule addRepo_not_qualifying)
  from twice member outside show ?thesis
    by blast
qed

text \<open>The statement above at the example inputs, with its premises met there.\<close>

theorem addRepo_idempotent_witness:
  "watcher example_state = Some {}
   \<and> qualifies (example_world double_growcap (Inr ''done'')) example_state ''/data/repos/alpha/''
   \<and> (\<exists>s1. addRepo (example_world double_growcap (Inr ''done'')) ''/data/repos/alpha/''
               example_state = Inr s1
         \<and> addRepo (example_world double_growcap (Inr ''done'')) ''/data/repos/alpha/'' s1 = Inr s1
         \<and> (\<forall>w'. addRepo w' ''/data/repos/alpha/'' s1 = Inr s1))
   \<and> currentlyWatching example_added_state (filepath_Clean ''/data/repos/alpha/'') = Some True
   \<and> addRepo (example_world double_growcap (Inr ''done'')) ''/data/repos/alpha/''
        example_added_state = Inr example_added_state
   \<and> \<not> qualifies (example_world double_growcap (Inr ''done'')) example_state ''/data/repos/locked''
   \<and> addRepo (example_world double_growcap (Inr ''done'')) ''/data/repos/locked''
        example_state = Inr example_state"
proof -
  let ?w = "example_world double_growcap (Inr ''done'')"
  have inner: "watcher example_state = Some {}"
    by (simp add: example_state_def)
  have q: "qualifies ?w example_state ''/data/repos/alpha/''"
    by (rule example_qualifies(2) [OF example_WatchPath(1)])
  have m: "currentlyWatching example_added_state (filepath_Clean ''/data/repos/alpha/'') = Some True"
    by (simp add: example_added_state_def example_clean)
  have n: "\<not> qualifies ?w example_state ''/data/repos/locked''"
    by (rule example_qualifies(3) [OF example_WatchPath(1)])
  from addRepo_idempotent
    [where s = example_state and paths = "{}" and w = ?w and path = "''/data/repos/alpha/''"]
    inner q
  have one: "\<exists>s1. addRepo ?w ''/data/repos/alpha/'' example_state = Inr s1
         \<and> addRepo ?w ''/data/repos/alpha/'' s1 = Inr s1
         \<and> (\<forall>w'. addRepo w' ''/data/repos/alpha/'' s1 = Inr s1)"
    by blast
  from addRepo_idempotent
    [where s = example_added_state and w = ?w and path = "''/data/repos/alpha/''" and b = True] m
  have two: "addRepo ?w ''/data/repos/alpha/'' example_added_state = Inr example_added_state"
    by blast
  from addRepo_idempotent
    [where s = example_state and w = ?w and path = "''/data/repos/locked''"] n
  have three: "addRepo ?w ''/data/repos/locked'' example_state = Inr example_state"
    by blast
  from inner q one m two n three show ?thesis
    by blast
qed

text \<open>
  Claim C6. removeRepo on a path that is not in the repository set (its cleaned form is
  not a key of \<open>currentlyWatching\<close>) returns the state as it was: the map, the
  subscriptions of the inner watcher and the log are unchanged, and nothing fails.
\<close>

theorem removeRepo_non_member:
  "currentlyWatching s (filepath_Clean path) = None \<Longrightarrow> removeRepo path s = Inr s"
  by (simp add: removeRepo_def Let_def)

text \<open>The statement above at the example inputs, with its premises met there.\<close>

theorem removeRepo_non_member_witness:
  "currentlyWatching example_state (filepath_Clean ''/data/repos/beta/'') = None
   \<and> removeRepo ''/data/repos/beta/'' example_state = Inr example_state"
proof -
  have h: "currentlyWatching example_state (filepath_Clean ''/data/repos/beta/'') = None"
    by (simp add: example_state_def)
  from removeRepo_non_member [OF h] h show ?thesis by blast
qed

text \<open>
  Claim C7 says that processEvent drops every event whose base name the pattern rejects,
  whether or not the path exists, and every event whose path is a directory or does not
  exist. The code skips on \<open>os.IsNotExist(err) || info.IsDir()\<close>, and \<open>os.IsNotExist\<close>
  recognises one error only. For a stale event below a watch subpath that has since been
  replaced by a file, \<open>os.Stat\<close> answers "not a directory": the path does not exist,
  \<open>info\<close> is nil, and \<open>info.IsDir()\<close> panics, for the name \<open>notes.md\<close> that the pattern
  rejects and for the name \<open>main.txt\<close> that it accepts alike, which ends the file loop.
  addRepo, which tests \<open>err != nil\<close>, returns the state unchanged on the same answer.
\<close>

theorem stale_event_dereferences_nil:
  "os_Stat (stale_world growcap outcome) ''/data/repos/alpha/src/notes.md''
     = Inl (ErrOther ''not a directory'')
   \<and> os_Stat (stale_world growcap outcome) ''/data/repos/alpha/src/main.txt''
     = Inl (ErrOther ''not a directory'')
   \<and> \<not> example_pattern (snd (filepath_Split ''/data/repos/alpha/src/notes.md''))
   \<and> example_pattern (snd (filepath_Split ''/data/repos/alpha/src/main.txt''))
   \<and> watcherRegexp example_added_state = Some example_pattern
   \<and> processEvent (stale_world growcap outcome)
        \<lparr>Name = ''/data/repos/alpha/src/notes.md'', Op = Write\<rparr> example_added_state
       = Inl NilDereference
   \<and> processEvent (stale_world growcap outcome)
        \<lparr>Name = ''/data/repos/alpha/src/main.txt'', Op = Write\<rparr> example_added_state
       = Inl NilDereference
   \<and> fileLoop ((stale_world growcap outcome,
                  \<lparr>Name = ''/data/repos/alpha/src/notes.md'', Op = Write\<rparr>) # rest)
        example_added_state = Inl NilDereference
   \<and> addRepo (stale_world growcap outcome) ''/data/repos/alpha/src/notes.md''
        example_added_state = Inr example_added_state"
proof -
  let ?w = "stale_world growcap outcome"
  have n1: "os_Stat ?w ''/data/repos/alpha/src/notes.md'' = Inl (ErrOther ''not a directory'')"
    by (simp add: stale_world_def)
  have m1: "os_Stat ?w ''/data/repos/alpha/src/main.txt'' = Inl (ErrOther ''not a directory'')"
    by (simp add: stale_world_def)
  have fails: "\<not> example_pattern (snd (filepath_Split ''/data/repos/alpha/src/notes.md''))"
    by (simp add: example_split example_pattern_def)
  have matches: "example_pattern (snd (filepath_Split ''/data/repos/alpha/src/main.txt''))"
    by (simp add: example_split example_pattern_def)
  have re: "watcherRegexp example_added_state = Some example_pattern"
    by (simp add: example_added_state_def example_state_def)
  have p1: "processEvent ?w \<lparr>Name = ''/data/repos/alpha/src/notes.md'', Op = Write\<rparr>
      example_added_state = Inl NilDereference"
    by (simp add: processEvent_def n1)
  have p2: "processEvent ?w \<lparr>Name = ''/data/repos/alpha/src/main.txt'', Op = Write\<rparr>
      example_added_state = Inl NilDereference"
    by (simp add: processEvent_def m1)
  have loop: "fileLoop ((?w, \<lparr>Name = ''/data/repos/alpha/src/notes.md'', Op = Write\<rparr>) # rest)
      example_added_state = Inl NilDereference"
    using p1 by simp
  have clean: "filepath_Clean ''/data/repos/alpha/src/notes.md'' = ''/data/repos/alpha/src/notes.md''"
    by (simp add: filepath_Clean_def separator_def)
  have sibling: "addRepo ?w ''/data/repos/alpha/src/notes.md'' example_added_state
      = Inr example_added_state"
    by (simp add: addRepo_def clean n1)
  from n1 m1 fails matches re p1 p2 loop sibling show ?thesis
    by blast
qed

text \<open>
  Claim C8. processReposEvent, the handler of the root loop: an event with the create or
  the chmod bit goes to addRepo on the event's path; otherwise an event with the rename or
  the remove bit goes to removeRepo on the event's path; any other event leaves the state
  unchanged. In particular the events of exactly one kind: Create and Chmod go to addRepo,
  Rename and Remove to removeRepo, Write changes nothing.
\<close>

theorem processReposEvent_dispatch:
  "processReposEvent w event s =
     (if bit (Op event) 0 \<or> bit (Op event) 4 then addRepo w (Name event) s
      else if bit (Op event) 3 \<or> bit (Op event) 2 then removeRepo (Name event) s
      else Inr s)
   \<and> processReposEvent w \<lparr>Name = path, Op = Create\<rparr> s = addRepo w path s
   \<and> processReposEvent w \<lparr>Name = path, Op = Chmod\<rparr> s = addRepo w path s
   \<and> processReposEvent w \<lparr>Name = path, Op = Rename\<rparr> s = removeRepo path s
   \<and> processReposEvent w \<lparr>Name = path, Op = Remove\<rparr> s = removeRepo path s
   \<and> processReposEvent w \<lparr>Name = path, Op = Write\<rparr> s = Inr s"
proof (intro conjI)
  show "processReposEvent w event s =
     (if bit (Op event) 0 \<or> bit (Op event) 4 then addRepo w (Name event) s
      else if bit (Op event) 3 \<or> bit (Op event) 2 then removeRepo (Name event) s
      else Inr s)"
    by (simp add: processReposEvent_def bit_tests)
qed (simp_all add: processReposEvent_def Create_def Chmod_def Rename_def Remove_def Write_def)

text \<open>
  Claim C9 says that on a qualifying event the command is run, its failure logged at error
  level or its output at info level, and the file loop goes on. With the repos root written
  \<open>/data/repos/../repos\<close>, main watches \<open>/data/repos/alpha/src\<close>. The event for \<open>main.txt\<close>
  there is qualifying: an existing regular file whose name matches the pattern. The root
  has four segments and the directory of the event four, in a slice of capacity four, so
  processEvent panics in the slice expression \<open>[:5]\<close> before it logs or runs anything, and
  the file loop ends.
\<close>

theorem dotdot_root_event_panics_before_command:
  "\<exists>s. main dotdot_startup (dotdot_world outcome) = Inr (Watching, s)
     \<and> watcher s = Some {''/data/repos/alpha/src''}
     \<and> currentlyWatching s = [''/data/repos/alpha'' \<mapsto> True]
     \<and> watcherRegexp s = Some example_pattern
     \<and> os_Stat (dotdot_world outcome) ''/data/repos/alpha/src/main.txt'' = Inr \<lparr>IsDir = False\<rparr>
     \<and> example_pattern (snd (filepath_Split ''/data/repos/alpha/src/main.txt''))
     \<and> executed s = []
     \<and> processEvent (dotdot_world outcome)
          \<lparr>Name = ''/data/repos/alpha/src/main.txt'', Op = Write\<rparr> s
         = Inl (SliceBoundsOutOfRange 5 4)
     \<and> fileLoop ((dotdot_world outcome,
                    \<lparr>Name = ''/data/repos/alpha/src/main.txt'', Op = Write\<rparr>) # rest) s
         = Inl (SliceBoundsOutOfRange 5 4)"
proof -
  let ?w = "dotdot_world outcome"
  let ?e = "\<lparr>Name = ''/data/repos/alpha/src/main.txt'', Op = Write\<rparr>"
  let ?s0 = "main_setup dotdot_startup"
  let ?s1 = "?s0\<lparr>reposWatcher := Some {''/data/repos/../repos''}\<rparr>"
  let ?s2 = "?s1\<lparr>watcher := Some {''/data/repos/alpha/src''},
                 currentlyWatching := [''/data/repos/alpha'' \<mapsto> True],
                 logged := logged ?s1 @ [(logInfo, ''[RepoWatch] Adding repo: /data/repos/alpha'')]\<rparr>"
  have wp: "WatchPath (config ?s1) = ''src''"
    by (simp add: dotdot_setup dotdot_config_def example_config_def)
  have target: "targetPath_of ?s1 ''/data/repos/../repos/alpha'' = ''/data/repos/alpha/src''"
    by (rule dotdot_targetPath [OF wp])
  have q: "qualifies ?w ?s1 ''/data/repos/../repos/alpha''"
    by (simp add: qualifies_def is_directory_def target dotdot_clean dotdot_world_def
        example_world_def example_Stat_def)
  have fresh: "currentlyWatching ?s1 (filepath_Clean ''/data/repos/../repos/alpha'') = None"
    by (simp add: dotdot_setup)
  have inner: "watcher ?s1 = Some {}"
    by (simp add: dotdot_setup)
  have added: "watcher_Add ?w ''/data/repos/alpha/src'' = None"
    by (simp add: dotdot_world_def example_world_def)
  have alpha: "addRepo ?w ''/data/repos/../repos/alpha'' ?s1 = Inr ?s2"
    using addRepo_new [OF q fresh inner, unfolded target dotdot_clean added]
    by (simp add: dotdot_setup)
  have repos: "addRepos ?w [''/data/repos/../repos/alpha''] ?s1 = Inr ?s2"
    using alpha by simp
  have root: "ReposRoot (config ?s0) = ''/data/repos/../repos''"
    by (simp add: dotdot_setup dotdot_config_def)
  have watch: "watchRepos ?w ''/data/repos/../repos'' ?s0 = Inr (Watching, ?s2)"
    using repos
    by (simp add: watchRepos_def dotdot_world_def example_world_def dotdot_setup)
  have run: "main dotdot_startup ?w = Inr (Watching, ?s2)"
    using watch root by (simp add: main_def Let_def)
  have stat: "os_Stat ?w (Name ?e) = Inr \<lparr>IsDir = False\<rparr>"
    by (simp add: dotdot_world_def example_world_def example_Stat_def)
  have dir: "\<not> IsDir \<lparr>IsDir = False\<rparr>"
    by simp
  have re: "watcherRegexp ?s2 = Some example_pattern"
    by (simp add: dotdot_setup)
  have match: "example_pattern (snd (filepath_Split (Name ?e)))"
    by (simp add: example_split example_pattern_def)
  have grow: "runtime_growcap ?w = double_growcap"
    by (simp add: dotdot_world_def example_world_def)
  have dirname: "fst (filepath_Split (Name ?e)) = ''/data/repos/alpha/src/''"
    by (simp add: example_split)
  have cap: "slice_cap (filterEmptyParts (runtime_growcap ?w)
                (strings_Split (fst (filepath_Split (Name ?e))) separator)) = 4"
    unfolding dirname grow dotdot_dir_slice by (simp add: slice_cap_def)
  have high: "length (segments (ReposRoot (config ?s2))) + 1 = 5"
    by (simp add: dotdot_setup dotdot_config_def dotdot_segments)
  have panic: "processEvent ?w ?e ?s2 = Inl (SliceBoundsOutOfRange 5 4)"
    using processEvent_out_of_range [OF stat dir re match] cap high by simp
  have loop: "fileLoop ((?w, ?e) # rest) ?s2 = Inl (SliceBoundsOutOfRange 5 4)"
    using panic by simp
  have subs: "watcher ?s2 = Some {''/data/repos/alpha/src''}
      \<and> currentlyWatching ?s2 = [''/data/repos/alpha'' \<mapsto> True] \<and> executed ?s2 = []"
    by (simp add: dotdot_setup)
  from run subs re stat match panic loop show ?thesis
    by simp
qed

text \<open>
  Claim C10. The first condition of processEvent skips the event only for the error that
  \<open>os.IsNotExist\<close> recognises. For any other error of \<open>os.Stat\<close> (permission denied, say)
  \<open>info\<close> is nil and \<open>info.IsDir()\<close> panics; the check of the repos root in watchRepos has
  the same shape and panics the same way. So processEvent returns only if \<open>os.Stat\<close>
  succeeded or reported that the path does not exist.
\<close>

theorem stat_error_dereferences_nil:
  "(os_Stat w (Name event) = Inl err \<and> \<not> os_IsNotExist err
      \<longrightarrow> processEvent w event s = Inl NilDereference)
   \<and> (os_Stat w reposRoot = Inl err \<and> \<not> os_IsNotExist err
      \<longrightarrow> watchRepos w reposRoot s = Inl NilDereference)
   \<and> (processEvent w event s = Inr s'
      \<longrightarrow> (\<exists>info. os_Stat w (Name event) = Inr info) \<or> os_Stat w (Name event) = Inl ErrNotExist)"
proof (intro conjI impI)
  assume "os_Stat w (Name event) = Inl err \<and> \<not> os_IsNotExist err"
  then show "processEvent w event s = Inl NilDereference"
    by (simp add: processEvent_def)
next
  assume "os_Stat w reposRoot = Inl err \<and> \<not> os_IsNotExist err"
  then show "watchRepos w reposRoot s = Inl NilDereference"
    by (simp add: watchRepos_def)
next
  assume a: "processEvent w event s = Inr s'"
  show "(\<exists>info. os_Stat w (Name event) = Inr info) \<or> os_Stat w (Name event) = Inl ErrNotExist"
  proof (cases "os_Stat w (Name event)")
    case (Inl e)
    with a have "os_IsNotExist e"
      by (simp add: processEvent_def split: if_splits)
    then have "e = ErrNotExist" by (cases e) simp_all
    with Inl show ?thesis by simp
  next
    case (Inr info)
    then show ?thesis by simp
  qed
qed

text \<open>The statement above at the example inputs, with its premises met there.\<close>

theorem stat_error_dereferences_nil_witness:
  "os_Stat (example_world double_growcap (Inr ''done'')) ''/data/repos/locked/src/main.txt''
     = Inl ErrPermission
   \<and> \<not> os_IsNotExist ErrPermission
   \<and> processEvent (example_world double_growcap (Inr ''done''))
        \<lparr>Name = ''/data/repos/locked/src/main.txt'', Op = Write\<rparr> example_state
       = Inl NilDereference
   \<and> os_Stat (example_world double_growcap (Inr ''done'')) ''/data/repos/locked/src''
       = Inl ErrPermission
   \<and> watchRepos (example_world double_growcap (Inr ''done'')) ''/data/repos/locked/src''
        example_state = Inl NilDereference
   \<and> processEvent (example_world double_growcap (Inr ''done''))
        \<lparr>Name = ''/data/repos/gone/src/main.txt'', Op = Remove\<rparr> example_state = Inr example_state
   \<and> os_Stat (example_world double_growcap (Inr ''done'')) ''/data/repos/gone/src/main.txt''
       = Inl ErrNotExist"
proof -
  let ?w = "example_world double_growcap (Inr ''done'')"
  let ?locked = "\<lparr>Name = ''/data/repos/locked/src/main.txt'', Op = Write\<rparr>"
  let ?gone = "\<lparr>Name = ''/data/repos/gone/src/main.txt'', Op = Remove\<rparr>"
  have a: "os_Stat ?w (Name ?locked) = Inl ErrPermission \<and> \<not> os_IsNotExist ErrPermission"
    by (simp add: example_world_def example_Stat_def)
  have b: "os_Stat ?w ''/data/repos/locked/src'' = Inl ErrPermission \<and> \<not> os_IsNotExist ErrPermission"
    by (simp add: example_world_def example_Stat_def)
  have c: "processEvent ?w ?gone example_state = Inr example_state"
    by (simp add: processEvent_def example_world_def example_Stat_def)
  have d: "\<nexists>info. os_Stat ?w (Name ?gone) = Inr info"
    by (simp add: example_world_def example_Stat_def)
  from stat_error_dereferences_nil [where w = ?w and event = ?locked and err = ErrPermission
      and s = example_state] a
  have one: "processEvent ?w ?locked example_state = Inl NilDereference"
    by blast
  from stat_error_dereferences_nil [where w = ?w and err = ErrPermission
      and reposRoot = "''/data/repos/locked/src''" and s = example_state] b
  have two: "watchRepos ?w ''/data/repos/locked/src'' example_state = Inl NilDereference"
    by blast
  from stat_error_dereferences_nil [where w = ?w and event = ?gone and s = example_state
      and s' = example_state] c d
  have three: "os_Stat ?w (Name ?gone) = Inl ErrNotExist"
    by blast
  from a b c one two three show ?thesis
    by simp
qed

end
